theory Spec2Isabelle
  imports Complex_Main "HOL-Library.Monad_Syntax"
begin

section \<open>The disk speed calculator of \<^verbatim>\<open>src/disk.py\<close>\<close>

text \<open>
  The program is one pure function over floating-point numbers. It is embedded twice.

  \<^item> Over the real numbers: \<^verbatim>\<open>float\<close> is \<^typ>\<open>real\<close>, the literal \<^verbatim>\<open>9.81\<close> is the
    rational \<open>981/100\<close>, and no operation rounds. This embedding carries the statements
    about the value the formula gives.

  \<^item> In double precision: every arithmetic operation rounds its exact result to the nearest
    binary64 number, ties to even. This embedding carries the statements that compare
    two results or ask for an exact zero, which rounding can decide differently from
    exact arithmetic.

  In both, the one partial operation of the source is the square root: numpy's
  \<^verbatim>\<open>sqrt\<close> of a negative number is not a number, so the model's square root returns
  \<open>None\<close> there, and the function returns \<^typ>\<open>real option\<close>.
\<close>

subsection \<open>numpy operations, over the reals\<close>

text \<open>\<^verbatim>\<open>np.radians\<close>: degrees to radians.\<close>

definition radians :: "real \<Rightarrow> real" where
  "radians deg = deg * pi / 180"

text \<open>\<^verbatim>\<open>np.sqrt\<close>: undefined (not a number) on a negative argument.\<close>

definition np_sqrt :: "real \<Rightarrow> real option" where
  "np_sqrt x = (if x < 0 then None else Some (sqrt x))"

subsection \<open>The function, over the reals\<close>

text \<open>
  \<^verbatim>\<open>final_disk_speed(height, length, incline, mass, friction, radius)\<close>, lines 3 to 45,
  with the local variables of the source as \<open>let\<close> bindings in the order they are assigned.
  The parameter \<^verbatim>\<open>length\<close> is written \<open>length'\<close>, the list function of HOL having the name.
\<close>

definition final_disk_speed ::
    "real \<Rightarrow> real \<Rightarrow> real \<Rightarrow> real \<Rightarrow> real \<Rightarrow> real \<Rightarrow> real option" where
  "final_disk_speed height length' incline mass friction radius =
    (let g = 9.81;
         theta = radians incline;
         energy_available = g * height - friction * g * cos theta * length'
     in if energy_available \<le> 0 then Some 0.0
        else (let v_squared = (4.0 / 3.0) * energy_available;
                  velocity = np_sqrt v_squared
              in velocity))"

section \<open>Double precision\<close>

subsection \<open>Rounding\<close>

text \<open>
  A finite double is the real number it denotes. \<open>rne\<close> rounds a real to the nearest
  integer, a tie to the even one.
\<close>

definition rne :: "real \<Rightarrow> int" where
  "rne x = (let n = \<lfloor>x\<rfloor>; d = x - of_int n in
     if d < 1 / 2 then n else if 1 / 2 < d then n + 1 else if even n then n else n + 1)"

text \<open>
  The exponent of the unit in the last place of \<open>x\<close>: 52 below the binade of \<open>x\<close>
  (a significand has 53 bits), and never below \<open>-1074\<close>, the exponent of the
  subnormal numbers.
\<close>

definition ulp_exp :: "real \<Rightarrow> int" where
  "ulp_exp x = max (\<lfloor>log 2 \<bar>x\<bar>\<rfloor> - 52) (- 1074)"

text \<open>Rounding to the nearest multiple of that unit, ties to even.\<close>

definition fl :: "real \<Rightarrow> real" where
  "fl x = of_int (rne (x / 2 powi ulp_exp x)) * 2 powi ulp_exp x"

text \<open>
  The largest finite double. An operation whose rounded result is beyond it overflows
  to an infinity: that is \<open>None\<close>, and so is every result computed from it.
\<close>

definition f64_max :: real where
  "f64_max = (2 ^ 53 - 1) * 2 ^ 971"

definition f64 :: "real \<Rightarrow> real option" where
  "f64 x = (if \<bar>fl x\<bar> \<le> f64_max then Some (fl x) else None)"

definition f64_mul :: "real \<Rightarrow> real \<Rightarrow> real option" where
  "f64_mul a b = f64 (a * b)"

definition f64_sub :: "real \<Rightarrow> real \<Rightarrow> real option" where
  "f64_sub a b = f64 (a - b)"

definition f64_div :: "real \<Rightarrow> real \<Rightarrow> real option" where
  "f64_div a b = f64 (a / b)"

subsection \<open>numpy operations, in double precision\<close>

text \<open>
  numpy's constant \<^verbatim>\<open>NPY_PI\<close>, the double \<^verbatim>\<open>0x400921FB54442D18\<close>, and \<^verbatim>\<open>np.radians\<close>,
  which multiplies its argument by the double \<^verbatim>\<open>NPY_PI/180.0\<close>.
\<close>

definition NPY_PI :: real where
  "NPY_PI = 884279719003555 / 2 ^ 48"

definition np_radians_f64 :: "real \<Rightarrow> real option" where
  "np_radians_f64 x = do { k \<leftarrow> f64_div NPY_PI 180; f64_mul x k }"

text \<open>\<^verbatim>\<open>np.sqrt\<close>: the correctly rounded square root, not a number on a negative argument.\<close>

definition np_sqrt_f64 :: "real \<Rightarrow> real option" where
  "np_sqrt_f64 x = (if x < 0 then None else f64 (sqrt x))"

text \<open>
  \<^verbatim>\<open>np.cos\<close> is a library routine whose last bit is not specified. The function below
  takes it as a parameter \<open>np_cos\<close>, and the general statements hold for every such
  routine. The concrete runs use \<open>cos_rounded\<close>, the correctly rounded cosine; they
  evaluate it at 0 only, or multiply its result by zero.
\<close>

definition cos_rounded :: "real \<Rightarrow> real option" where
  "cos_rounded x = f64 (cos x)"

subsection \<open>The function, in double precision\<close>

text \<open>
  Line 38: the value of \<^verbatim>\<open>energy_available\<close>, one rounding for each operation in the
  order Python evaluates \<^verbatim>\<open>g * height - friction * g * np.cos(theta) * length\<close>.
\<close>

definition energy_available_f64 ::
    "(real \<Rightarrow> real option) \<Rightarrow> real \<Rightarrow> real \<Rightarrow> real \<Rightarrow> real \<Rightarrow> real option" where
  "energy_available_f64 np_cos height length' incline friction =
    do { g \<leftarrow> f64 9.81;
         theta \<leftarrow> np_radians_f64 incline;
         gh \<leftarrow> f64_mul g height;
         fg \<leftarrow> f64_mul friction g;
         c \<leftarrow> np_cos theta;
         fgc \<leftarrow> f64_mul fg c;
         fgcl \<leftarrow> f64_mul fgc length';
         f64_sub gh fgcl }"

text \<open>Lines 3 to 45.\<close>

definition final_disk_speed_f64 ::
    "(real \<Rightarrow> real option) \<Rightarrow> real \<Rightarrow> real \<Rightarrow> real \<Rightarrow> real \<Rightarrow> real \<Rightarrow> real \<Rightarrow> real option" where
  "final_disk_speed_f64 np_cos height length' incline mass friction radius =
    do { energy_available \<leftarrow> energy_available_f64 np_cos height length' incline friction;
         if energy_available \<le> 0 then Some 0.0
         else do { four_thirds \<leftarrow> f64_div 4.0 3.0;
                   v_squared \<leftarrow> f64_mul four_thirds energy_available;
                   velocity \<leftarrow> np_sqrt_f64 v_squared;
                   Some velocity } }"

section \<open>Auxiliary facts\<close>

subsection \<open>The function over the reals\<close>

text \<open>The function body with the bindings expanded and the square root's guard resolved.\<close>

lemma final_disk_speed_body:
  "final_disk_speed height length' incline mass friction radius =
    (if 9.81 * height - friction * 9.81 * cos (incline * pi / 180) * length' \<le> 0 then Some 0
     else np_sqrt (4 / 3 * (9.81 * height - friction * 9.81 * cos (incline * pi / 180) * length')))"
proof -
  define e where "e = 9.81 * height - friction * 9.81 * cos (incline * pi / 180) * length'"
  have "final_disk_speed height length' incline mass friction radius =
      (if e \<le> 0 then Some 0 else np_sqrt (4 / 3 * e))"
    unfolding final_disk_speed_def radians_def Let_def e_def by simp
  then show ?thesis
    unfolding e_def .
qed

lemma final_disk_speed_clamped:
  assumes "9.81 * height - friction * 9.81 * cos (incline * pi / 180) * length' \<le> 0"
  shows "final_disk_speed height length' incline mass friction radius = Some 0"
  by (simp only: final_disk_speed_body assms if_True)

lemma np_sqrt_scaled:
  assumes "0 < e"
  shows "np_sqrt (4 / 3 * e) = Some (sqrt (4 / 3 * e))"
  using assms unfolding np_sqrt_def by simp

lemma final_disk_speed_rolling:
  assumes "0 < 9.81 * height - friction * 9.81 * cos (incline * pi / 180) * length'"
  shows "final_disk_speed height length' incline mass friction radius =
    Some (sqrt (4 / 3 * (9.81 * height - friction * 9.81 * cos (incline * pi / 180) * length')))"
proof -
  from assms
  have "\<not> 9.81 * height - friction * 9.81 * cos (incline * pi / 180) * length' \<le> 0"
    by (simp only: not_le)
  then have "final_disk_speed height length' incline mass friction radius =
      np_sqrt (4 / 3 * (9.81 * height - friction * 9.81 * cos (incline * pi / 180) * length'))"
    by (simp only: final_disk_speed_body if_False)
  then show ?thesis
    by (simp only: np_sqrt_scaled [OF assms])
qed

lemma deg_0: "(0::real) * pi / 180 = 0"
  by simp

lemma deg_45: "(45::real) * pi / 180 = pi / 4"
  by simp


lemma deg_180: "(180::real) * pi / 180 = pi"
  by simp

lemma sqrt2_lower: "1.4142 < sqrt 2"
  by (rule real_less_rsqrt) (simp add: power2_eq_square)

lemma sqrt2_upper: "sqrt 2 < 1.4143"
  by (rule real_less_lsqrt) (simp_all add: power2_eq_square)

subsection \<open>Rounding to the nearest double\<close>

lemma rne_of_int: "rne (of_int n) = n"
  unfolding rne_def by simp

lemma rne_near: "of_int (rne x) - 1 / 2 \<le> x \<and> x \<le> of_int (rne x) + 1 / 2"
  unfolding rne_def Let_def by (simp; linarith)

lemma rne_mono:
  assumes "x \<le> y"
  shows "rne x \<le> rne y"
proof (rule ccontr)
  assume "\<not> rne x \<le> rne y"
  then have "rne y + 1 \<le> rne x"
    by simp
  then have *: "real_of_int (rne y) + 1 \<le> real_of_int (rne x)"
    by linarith
  from rne_near [of x] rne_near [of y] assms *
  have "x = y"
    by linarith
  with \<open>\<not> rne x \<le> rne y\<close> show False
    by simp
qed

lemma rne_eqI:
  assumes "of_int m - 1 / 2 < x" and "x < of_int m + 1 / 2"
  shows "rne x = m"
proof -
  from rne_near [of x] assms
  have "real_of_int (rne x) < of_int m + 1" and "real_of_int m < of_int (rne x) + 1"
    by linarith+
  then have "rne x < m + 1" and "m < rne x + 1"
    by linarith+
  then show ?thesis
    by simp
qed

lemma rne_eqI_even:
  assumes "of_int m - 1 / 2 \<le> x" and "x \<le> of_int m + 1 / 2" and "even m"
  shows "rne x = m"
proof -
  consider "x = of_int m + 1 / 2" | "x = of_int m - 1 / 2"
    | "of_int m - 1 / 2 < x" "x < of_int m + 1 / 2"
    using assms(1,2) by linarith
  then show ?thesis
  proof cases
    case 1
    then have "\<lfloor>x\<rfloor> = m"
      by linarith
    with 1 assms(3) show ?thesis
      unfolding rne_def Let_def by simp
  next
    case 2
    then have "\<lfloor>x\<rfloor> = m - 1"
      by linarith
    with 2 assms(3) show ?thesis
      unfolding rne_def Let_def by simp
  next
    case 3
    then show ?thesis
      by (rule rne_eqI)
  qed
qed

lemma rne_minus: "rne (- x) = - rne x"
proof (cases "x = of_int \<lfloor>x\<rfloor>")
  case True
  then obtain n where "x = of_int n" ..
  then show ?thesis
    using rne_of_int [of n] rne_of_int [of "- n"] by simp
next
  case False
  then have fl: "\<lfloor>- x\<rfloor> = - \<lfloor>x\<rfloor> - 1"
    by (metis ceiling_altdef ceiling_def add_diff_cancel_right' minus_diff_eq minus_minus uminus_add_conv_diff)
  show ?thesis
    unfolding rne_def Let_def fl by (simp; linarith?)
qed

lemma ulp_exp_minus: "ulp_exp (- x) = ulp_exp x"
  unfolding ulp_exp_def by simp

lemma fl_minus: "fl (- x) = - fl x"
  unfolding fl_def ulp_exp_minus by (simp add: rne_minus)

lemma fl_0: "fl 0 = 0"
  unfolding fl_def by (simp add: rne_of_int [of 0, simplified])

lemma two_powi_pos: "0 < (2::real) powi k"
  by simp

lemma two_powi_mono: "a \<le> b \<Longrightarrow> (2::real) powi a \<le> 2 powi b"
  by (rule power_int_increasing) simp_all

lemma fl_nonneg:
  assumes "0 \<le> x"
  shows "0 \<le> fl x"
proof -
  have "0 \<le> x / 2 powi ulp_exp x"
    using assms by simp
  then have "rne 0 \<le> rne (x / 2 powi ulp_exp x)"
    by (rule rne_mono)
  then have "0 \<le> rne (x / 2 powi ulp_exp x)"
    using rne_of_int [of 0] by simp
  then show ?thesis
    unfolding fl_def by simp
qed

lemma two_powr_int: "(2::real) powr (real_of_int k) = 2 powi k"
  by (simp add: powr_real_of_int')

lemma two_powr_int_Suc: "(2::real) powr (real_of_int k + 1) = 2 powi (k + 1)"
  using two_powr_int [of "k + 1"] by simp

text \<open>The binade of a positive number.\<close>

lemma binade:
  assumes "0 < x"
  shows "2 powi \<lfloor>log 2 x\<rfloor> \<le> x \<and> x < 2 powi (\<lfloor>log 2 x\<rfloor> + 1)"
proof -
  have "\<lfloor>log 2 x\<rfloor> = \<lfloor>log 2 x\<rfloor>" ..
  then have "2 powr (real_of_int \<lfloor>log 2 x\<rfloor>) \<le> x \<and> x < 2 powr (real_of_int \<lfloor>log 2 x\<rfloor> + 1)"
    using assms floor_log_eq_powr_iff [of x 2 "\<lfloor>log 2 x\<rfloor>"] by simp
  then show ?thesis
    by (simp only: two_powr_int two_powr_int_Suc)
qed

lemma binade_unique:
  assumes "0 < x" and "2 powi e \<le> x" and "x < 2 powi (e + 1)"
  shows "\<lfloor>log 2 x\<rfloor> = e"
proof -
  have "2 powr (real_of_int e) \<le> x \<and> x < 2 powr (real_of_int e + 1)"
    using assms by (simp only: two_powr_int two_powr_int_Suc)
  then show ?thesis
    using assms(1) floor_log_eq_powr_iff [of x 2 e] by simp
qed

lemma ulp_exp_mono:
  assumes "0 < x" and "x \<le> y"
  shows "ulp_exp x \<le> ulp_exp y"
proof -
  have "log 2 x \<le> log 2 y"
    using assms by simp
  then have "\<lfloor>log 2 x\<rfloor> \<le> \<lfloor>log 2 y\<rfloor>"
    by (rule floor_mono)
  then show ?thesis
    using assms unfolding ulp_exp_def by simp
qed

text \<open>A rounded positive number stays inside the closure of its binade.\<close>

lemma fl_upper:
  assumes "0 < x"
  shows "fl x \<le> 2 powi (ulp_exp x + 53)"
proof -
  define k where "k = ulp_exp x"
  have "\<lfloor>log 2 x\<rfloor> + 1 \<le> k + 53"
    using assms unfolding k_def ulp_exp_def by simp
  then have "(2::real) powi (\<lfloor>log 2 x\<rfloor> + 1) \<le> 2 powi (k + 53)"
    by (rule two_powi_mono)
  with binade [OF assms] have "x \<le> 2 powi (k + 53)"
    by simp
  then have "x / 2 powi k \<le> 2 powi (k + 53) / 2 powi k"
    by (simp add: divide_right_mono)
  also have "(2::real) powi (k + 53) / 2 powi k = of_int (2 ^ 53)"
    by (simp add: power_int_add)
  finally have "rne (x / 2 powi k) \<le> rne (of_int (2 ^ 53))"
    by (rule rne_mono)
  then have "rne (x / 2 powi k) \<le> 2 ^ 53"
    by (simp only: rne_of_int)
  then have "real_of_int (rne (x / 2 powi k)) \<le> real_of_int (2 ^ 53)"
    by (simp only: of_int_le_iff)
  then have "real_of_int (rne (x / 2 powi k)) \<le> 2 ^ 53"
    by simp
  then have "real_of_int (rne (x / 2 powi k)) * 2 powi k \<le> 2 ^ 53 * 2 powi k"
    by (simp add: mult_right_mono)
  also have "(2::real) ^ 53 * 2 powi k = 2 powi (k + 53)"
    by (simp add: power_int_add)
  finally show ?thesis
    unfolding fl_def k_def .
qed

lemma fl_lower:
  assumes "0 < x" and "- 1074 < ulp_exp x"
  shows "2 powi (ulp_exp x + 52) \<le> fl x"
proof -
  define k where "k = ulp_exp x"
  have "\<lfloor>log 2 x\<rfloor> = k + 52"
    using assms unfolding k_def ulp_exp_def by simp
  with binade [OF assms(1)] have "2 powi (k + 52) \<le> x"
    by simp
  then have "2 powi (k + 52) / 2 powi k \<le> x / 2 powi k"
    by (simp add: divide_right_mono)
  moreover have "(2::real) powi (k + 52) / 2 powi k = of_int (2 ^ 52)"
    by (simp add: power_int_add)
  ultimately have "rne (of_int (2 ^ 52)) \<le> rne (x / 2 powi k)"
    by (simp only: rne_mono)
  then have "2 ^ 52 \<le> rne (x / 2 powi k)"
    by (simp only: rne_of_int)
  then have "real_of_int (2 ^ 52) \<le> real_of_int (rne (x / 2 powi k))"
    by (simp only: of_int_le_iff)
  then have "2 ^ 52 \<le> real_of_int (rne (x / 2 powi k))"
    by simp
  then have "2 ^ 52 * 2 powi k \<le> real_of_int (rne (x / 2 powi k)) * 2 powi k"
    by (simp add: mult_right_mono)
  also have "(2::real) ^ 52 * 2 powi k = 2 powi (k + 52)"
    by (simp add: power_int_add)
  finally show ?thesis
    unfolding fl_def k_def .
qed

text \<open>Rounding is monotone.\<close>

lemma fl_mono_pos:
  assumes "0 < x" and "x \<le> y"
  shows "fl x \<le> fl y"
proof (cases "ulp_exp x = ulp_exp y")
  case True
  have "x / 2 powi ulp_exp y \<le> y / 2 powi ulp_exp y"
    using assms by (simp add: divide_right_mono)
  then have "rne (x / 2 powi ulp_exp y) \<le> rne (y / 2 powi ulp_exp y)"
    by (rule rne_mono)
  then have "real_of_int (rne (x / 2 powi ulp_exp y)) \<le> real_of_int (rne (y / 2 powi ulp_exp y))"
    by linarith
  then show ?thesis
    unfolding fl_def True by (simp add: mult_right_mono)
next
  case False
  with ulp_exp_mono [OF assms] have lt: "ulp_exp x < ulp_exp y"
    by simp
  have "- 1074 \<le> ulp_exp x"
    unfolding ulp_exp_def by simp
  with lt have "- 1074 < ulp_exp y"
    by simp
  moreover have "0 < y"
    using assms by simp
  ultimately have "2 powi (ulp_exp y + 52) \<le> fl y"
    by (simp only: fl_lower)
  moreover have "fl x \<le> 2 powi (ulp_exp x + 53)"
    using assms(1) by (rule fl_upper)
  moreover have "(2::real) powi (ulp_exp x + 53) \<le> 2 powi (ulp_exp y + 52)"
    using lt by (intro two_powi_mono) simp
  ultimately show ?thesis
    by linarith
qed

lemma fl_mono:
  assumes "x \<le> y"
  shows "fl x \<le> fl y"
proof -
  consider "0 < x" | "x \<le> 0" "0 \<le> y" | "y < 0"
    using assms by linarith
  then show ?thesis
  proof cases
    case 1
    then show ?thesis
      using assms by (rule fl_mono_pos)
  next
    case 2
    from \<open>x \<le> 0\<close> have "0 \<le> fl (- x)"
      by (intro fl_nonneg) simp
    then have "fl x \<le> 0"
      by (simp add: fl_minus)
    moreover from \<open>0 \<le> y\<close> have "0 \<le> fl y"
      by (rule fl_nonneg)
    ultimately show ?thesis
      by simp
  next
    case 3
    then have "0 < - y" and "- y \<le> - x"
      using assms by simp_all
    then have "fl (- y) \<le> fl (- x)"
      by (rule fl_mono_pos)
    then show ?thesis
      by (simp add: fl_minus)
  qed
qed

text \<open>Rounding a number whose binade and nearest significand are known.\<close>

lemma fl_eqI:
  assumes "2 powi e \<le> x" and "x < 2 powi (e + 1)" and "- 1022 \<le> e"
    and "of_int m - 1 / 2 < x / 2 powi (e - 52)" and "x / 2 powi (e - 52) < of_int m + 1 / 2"
  shows "fl x = of_int m * 2 powi (e - 52)"
proof -
  have "0 < x"
    using assms(1) two_powi_pos [of e] by linarith
  then have "\<lfloor>log 2 x\<rfloor> = e"
    using assms(1,2) by (rule binade_unique)
  then have "\<lfloor>log 2 \<bar>x\<bar>\<rfloor> = e"
    using \<open>0 < x\<close> by simp
  then have k: "ulp_exp x = e - 52"
    using assms(3) unfolding ulp_exp_def by simp
  from assms(4,5) have "rne (x / 2 powi (e - 52)) = m"
    by (rule rne_eqI)
  then show ?thesis
    unfolding fl_def k by simp
qed

lemma fl_eqI_even:
  assumes "2 powi e \<le> x" and "x < 2 powi (e + 1)" and "- 1022 \<le> e"
    and "of_int m - 1 / 2 \<le> x / 2 powi (e - 52)" and "x / 2 powi (e - 52) \<le> of_int m + 1 / 2"
    and "even m"
  shows "fl x = of_int m * 2 powi (e - 52)"
proof -
  have "0 < x"
    using assms(1) two_powi_pos [of e] by linarith
  then have "\<lfloor>log 2 x\<rfloor> = e"
    using assms(1,2) by (rule binade_unique)
  then have "\<lfloor>log 2 \<bar>x\<bar>\<rfloor> = e"
    using \<open>0 < x\<close> by simp
  then have k: "ulp_exp x = e - 52"
    using assms(3) unfolding ulp_exp_def by simp
  from assms(4,5,6) have "rne (x / 2 powi (e - 52)) = m"
    by (rule rne_eqI_even)
  then show ?thesis
    unfolding fl_def k by simp
qed

lemma fl_two_powi:
  assumes "- 1022 \<le> e"
  shows "fl (2 powi e) = 2 powi e"
proof -
  have q: "(2::real) powi e / 2 powi (e - 52) = 2 ^ 52"
    by (simp add: power_int_diff)
  have "fl (2 powi e) = real_of_int (2 ^ 52) * 2 powi (e - 52)"
  proof (rule fl_eqI)
    show "(2::real) powi e \<le> 2 powi e"
      by simp
    show "(2::real) powi e < 2 powi (e + 1)"
      by (simp add: power_int_add)
    show "- 1022 \<le> e"
      by fact
    show "real_of_int (2 ^ 52) - 1 / 2 < 2 powi e / 2 powi (e - 52)"
      unfolding q by simp
    show "2 powi e / 2 powi (e - 52) < real_of_int (2 ^ 52) + 1 / 2"
      unfolding q by simp
  qed
  also have "real_of_int (2 ^ 52) * 2 powi (e - 52) = 2 powi e"
    by (simp add: power_int_diff)
  finally show ?thesis .
qed

subsection \<open>Finite doubles\<close>

lemma f64_finite:
  assumes "\<bar>x\<bar> \<le> 2 ^ 1023"
  shows "f64 x = Some (fl x)"
proof -
  have top: "fl (2 ^ 1023) = 2 ^ 1023"
    using fl_two_powi [of 1023] by simp
  from assms have "x \<le> 2 ^ 1023" and "- x \<le> 2 ^ 1023"
    by linarith+
  then have "fl x \<le> fl (2 ^ 1023)" and "fl (- x) \<le> fl (2 ^ 1023)"
    by (simp_all only: fl_mono)
  then have "\<bar>fl x\<bar> \<le> 2 ^ 1023"
    unfolding top fl_minus by linarith
  moreover have "(2::real) ^ 1023 \<le> f64_max"
    unfolding f64_max_def by simp
  ultimately show ?thesis
    unfolding f64_def by simp
qed

lemma f64_SomeD: "f64 x = Some v \<Longrightarrow> v = fl x"
  unfolding f64_def by (simp split: if_splits)

lemma f64_mono:
  assumes "f64 x = Some a" and "f64 y = Some b" and "x \<le> y"
  shows "a \<le> b"
proof -
  from assms(1) have "a = fl x"
    by (rule f64_SomeD)
  moreover from assms(2) have "b = fl y"
    by (rule f64_SomeD)
  ultimately show ?thesis
    using fl_mono [OF assms(3)] by simp
qed

lemma f64_0: "f64 0 = Some 0"
  using f64_finite [of 0] by (simp add: fl_0)

lemma f64_eqI:
  assumes "2 powi e \<le> x" and "x < 2 powi (e + 1)" and "- 1022 \<le> e" and "e \<le> 1022"
    and "of_int m - 1 / 2 < x / 2 powi (e - 52)" and "x / 2 powi (e - 52) < of_int m + 1 / 2"
  shows "f64 x = Some (of_int m * 2 powi (e - 52))"
proof -
  have "0 < x"
    using assms(1) two_powi_pos [of e] by linarith
  moreover have "(2::real) powi (e + 1) \<le> 2 powi 1023"
    using assms(4) by (intro two_powi_mono) simp
  ultimately have "\<bar>x\<bar> \<le> 2 ^ 1023"
    using assms(2) by simp
  then have "f64 x = Some (fl x)"
    by (rule f64_finite)
  also have "fl x = of_int m * 2 powi (e - 52)"
    using assms(1,2,3,5,6) by (rule fl_eqI)
  finally show ?thesis .
qed

lemma f64_eqI_even:
  assumes "2 powi e \<le> x" and "x < 2 powi (e + 1)" and "- 1022 \<le> e" and "e \<le> 1022"
    and "of_int m - 1 / 2 \<le> x / 2 powi (e - 52)" and "x / 2 powi (e - 52) \<le> of_int m + 1 / 2"
    and "even m"
  shows "f64 x = Some (of_int m * 2 powi (e - 52))"
proof -
  have "0 < x"
    using assms(1) two_powi_pos [of e] by linarith
  moreover have "(2::real) powi (e + 1) \<le> 2 powi 1023"
    using assms(4) by (intro two_powi_mono) simp
  ultimately have "\<bar>x\<bar> \<le> 2 ^ 1023"
    using assms(2) by simp
  then have "f64 x = Some (fl x)"
    by (rule f64_finite)
  also have "fl x = of_int m * 2 powi (e - 52)"
    using assms(1,2,3,5,6,7) by (rule fl_eqI_even)
  finally show ?thesis .
qed

lemma f64_minus:
  assumes "f64 x = Some v"
  shows "f64 (- x) = Some (- v)"
  using assms unfolding f64_def fl_minus by (simp split: if_splits)

lemma f64_eqI_neg:
  assumes "2 powi e \<le> - x" and "- x < 2 powi (e + 1)" and "- 1022 \<le> e" and "e \<le> 1022"
    and "of_int m - 1 / 2 < - x / 2 powi (e - 52)" and "- x / 2 powi (e - 52) < of_int m + 1 / 2"
  shows "f64 x = Some (- (of_int m * 2 powi (e - 52)))"
  using f64_minus [OF f64_eqI [OF assms]] by simp

lemma f64_eqI_neg_even:
  assumes "2 powi e \<le> - x" and "- x < 2 powi (e + 1)" and "- 1022 \<le> e" and "e \<le> 1022"
    and "of_int m - 1 / 2 \<le> - x / 2 powi (e - 52)" and "- x / 2 powi (e - 52) \<le> of_int m + 1 / 2"
    and "even m"
  shows "f64 x = Some (- (of_int m * 2 powi (e - 52)))"
  using f64_minus [OF f64_eqI_even [OF assms]] by simp

lemma f64_sqrt_eqI:
  assumes "(2 powi e)\<^sup>2 \<le> z" and "z < (2 powi (e + 1))\<^sup>2" and "- 1022 \<le> e" and "e \<le> 1022"
    and "0 < m"
    and "((of_int m - 1 / 2) * 2 powi (e - 52))\<^sup>2 < z"
    and "z < ((of_int m + 1 / 2) * 2 powi (e - 52))\<^sup>2"
  shows "f64 (sqrt z) = Some (of_int m * 2 powi (e - 52))"
proof (rule f64_eqI)
  show "2 powi e \<le> sqrt z"
    using assms(1) by (rule real_le_rsqrt)
  show "sqrt z < 2 powi (e + 1)"
    using assms(2) by (intro real_less_lsqrt) simp_all
  show "- 1022 \<le> e" and "e \<le> 1022"
    by fact+
  have m: "0 \<le> real_of_int m - 1 / 2"
    using assms(5) by linarith
  have "(real_of_int m - 1 / 2) * 2 powi (e - 52) < sqrt z"
    using assms(6) by (rule real_less_rsqrt)
  then show "real_of_int m - 1 / 2 < sqrt z / 2 powi (e - 52)"
    by (simp add: pos_less_divide_eq)
  have "sqrt z < (real_of_int m + 1 / 2) * 2 powi (e - 52)"
    using assms(7) m by (intro real_less_lsqrt) simp_all
  then show "sqrt z / 2 powi (e - 52) < real_of_int m + 1 / 2"
    by (simp add: pos_divide_less_eq)
qed

lemma f64_1: "f64 1 = Some 1"
  using f64_eqI [of 0 1 "2 ^ 52"] by simp

subsection \<open>The function in double precision\<close>

lemma g_nonneg:
  assumes "f64 9.81 = Some g"
  shows "0 \<le> g"
proof -
  from assms have "g = fl 9.81"
    by (rule f64_SomeD)
  moreover have "0 \<le> fl 9.81"
    by (rule fl_nonneg) simp
  ultimately show ?thesis
    by simp
qed

lemma energy_SomeD:
  assumes "energy_available_f64 np_cos height length' incline friction = Some e"
  obtains g theta c where "f64 9.81 = Some g" and "np_radians_f64 incline = Some theta"
    and "np_cos theta = Some c"
    and "e = fl (fl (g * height) - fl (fl (fl (friction * g) * c) * length'))"
proof -
  from assms obtain g theta gh fg c fgc fgcl where g: "f64 9.81 = Some g"
    and th: "np_radians_f64 incline = Some theta"
    and gh: "f64 (g * height) = Some gh" and fg: "f64 (friction * g) = Some fg"
    and c: "np_cos theta = Some c" and fgc: "f64 (fg * c) = Some fgc"
    and fgcl: "f64 (fgc * length') = Some fgcl" and e: "f64 (gh - fgcl) = Some e"
    unfolding energy_available_f64_def f64_mul_def f64_sub_def
    by (auto simp: bind_eq_Some_conv)
  have "e = fl (fl (g * height) - fl (fl (fl (friction * g) * c) * length'))"
    using f64_SomeD [OF gh] f64_SomeD [OF fg] f64_SomeD [OF fgc] f64_SomeD [OF fgcl]
      f64_SomeD [OF e] by simp
  with g th c show ?thesis
    by (rule that)
qed

lemma final_disk_speed_f64_body:
  "final_disk_speed_f64 np_cos height length' incline mass friction radius =
    energy_available_f64 np_cos height length' incline friction \<bind>
      (\<lambda>e. if e \<le> 0 then Some 0
           else f64 (4 / 3) \<bind> (\<lambda>c. f64 (c * e) \<bind> np_sqrt_f64))"
  unfolding final_disk_speed_f64_def f64_mul_def f64_div_def by (simp cong: if_cong)

lemma final_SomeD:
  assumes "final_disk_speed_f64 np_cos height length' incline mass friction radius = Some v"
  obtains e where "energy_available_f64 np_cos height length' incline friction = Some e"
    and "e \<le> 0 \<and> v = 0 \<or> 0 < e \<and> v = fl (sqrt (fl (fl (4 / 3) * e)))"
proof -
  from assms obtain e where e: "energy_available_f64 np_cos height length' incline friction = Some e"
    and rest: "(if e \<le> 0 then Some 0
        else f64 (4 / 3) \<bind> (\<lambda>c. f64 (c * e) \<bind> np_sqrt_f64)) = Some v"
    unfolding final_disk_speed_f64_body by (auto simp: bind_eq_Some_conv)
  show ?thesis
  proof (cases "e \<le> 0")
    case True
    with rest have "v = 0"
      by simp
    with True have "e \<le> 0 \<and> v = 0 \<or> 0 < e \<and> v = fl (sqrt (fl (fl (4 / 3) * e)))"
      by blast
    with e show ?thesis
      by (rule that)
  next
    case False
    with rest obtain c43 vs where c43: "f64 (4 / 3) = Some c43"
      and vs: "f64 (c43 * e) = Some vs" and v: "np_sqrt_f64 vs = Some v"
      by (auto simp: bind_eq_Some_conv)
    from v have "f64 (sqrt vs) = Some v"
      unfolding np_sqrt_f64_def by (simp split: if_splits)
    then have "v = fl (sqrt (fl (fl (4 / 3) * e)))"
      using f64_SomeD [OF c43] f64_SomeD [OF vs] by (simp add: f64_SomeD)
    with False have "e \<le> 0 \<and> v = 0 \<or> 0 < e \<and> v = fl (sqrt (fl (fl (4 / 3) * e)))"
      by simp
    with e show ?thesis
      by (rule that)
  qed
qed

lemma tail_mono:
  assumes "e1 \<le> e2"
  shows "fl (sqrt (fl (fl (4 / 3) * e1))) \<le> fl (sqrt (fl (fl (4 / 3) * e2)))"
proof -
  have "0 \<le> fl (4 / 3)"
    by (rule fl_nonneg) simp
  with assms have "fl (4 / 3) * e1 \<le> fl (4 / 3) * e2"
    by (rule mult_left_mono)
  then have "fl (fl (4 / 3) * e1) \<le> fl (fl (4 / 3) * e2)"
    by (rule fl_mono)
  then have "sqrt (fl (fl (4 / 3) * e1)) \<le> sqrt (fl (fl (4 / 3) * e2))"
    by simp
  then show ?thesis
    by (rule fl_mono)
qed

lemma tail_nonneg: "0 \<le> fl (sqrt x)" if "0 \<le> x"
  using that by (intro fl_nonneg) simp

lemma final_nonneg:
  assumes "final_disk_speed_f64 np_cos height length' incline mass friction radius = Some v"
  shows "0 \<le> v"
proof -
  from assms obtain e where "e \<le> 0 \<and> v = 0 \<or> 0 < e \<and> v = fl (sqrt (fl (fl (4 / 3) * e)))"
    by (rule final_SomeD)
  moreover have "0 \<le> fl (sqrt (fl (fl (4 / 3) * e)))" if "0 < e"
  proof -
    have "0 \<le> fl (4 / 3) * e"
      using that fl_nonneg [of "4 / 3"] by simp
    then have "0 \<le> fl (fl (4 / 3) * e)"
      by (rule fl_nonneg)
    then show ?thesis
      by (rule tail_nonneg)
  qed
  ultimately show ?thesis
    by auto
qed

lemma final_mono_energy:
  assumes "final_disk_speed_f64 np_cos h1 l1 i1 m1 f1 r1 = Some v1"
    and "final_disk_speed_f64 np_cos h2 l2 i2 m2 f2 r2 = Some v2"
    and "energy_available_f64 np_cos h1 l1 i1 f1 = Some e1"
    and "energy_available_f64 np_cos h2 l2 i2 f2 = Some e2"
    and "e1 \<le> e2"
  shows "v1 \<le> v2"
proof -
  from assms(1,3) have c1: "e1 \<le> 0 \<and> v1 = 0 \<or> 0 < e1 \<and> v1 = fl (sqrt (fl (fl (4 / 3) * e1)))"
    by (auto elim: final_SomeD)
  from assms(2,4) have c2: "e2 \<le> 0 \<and> v2 = 0 \<or> 0 < e2 \<and> v2 = fl (sqrt (fl (fl (4 / 3) * e2)))"
    by (auto elim: final_SomeD)
  show ?thesis
  proof (cases "e1 \<le> 0")
    case True
    with c1 have "v1 = 0"
      by auto
    with final_nonneg [OF assms(2)] show ?thesis
      by simp
  next
    case False
    with c1 c2 assms(5) have "v1 = fl (sqrt (fl (fl (4 / 3) * e1)))"
      and "v2 = fl (sqrt (fl (fl (4 / 3) * e2)))"
      by auto
    with tail_mono [OF assms(5)] show ?thesis
      by simp
  qed
qed

lemma energy_mono_height:
  assumes "energy_available_f64 np_cos h1 length' incline friction = Some e1"
    and "energy_available_f64 np_cos h2 length' incline friction = Some e2"
    and "h1 \<le> h2"
  shows "e1 \<le> e2"
proof -
  from assms(1) obtain g theta c where g: "f64 9.81 = Some g"
    and th: "np_radians_f64 incline = Some theta" and c: "np_cos theta = Some c"
    and e1: "e1 = fl (fl (g * h1) - fl (fl (fl (friction * g) * c) * length'))"
    by (rule energy_SomeD)
  from assms(2) g th c
  have e2: "e2 = fl (fl (g * h2) - fl (fl (fl (friction * g) * c) * length'))"
    by (auto elim!: energy_SomeD)
  have "g * h1 \<le> g * h2"
    using assms(3) g_nonneg [OF g] by (rule mult_left_mono)
  then have "fl (g * h1) \<le> fl (g * h2)"
    by (rule fl_mono)
  then show ?thesis
    unfolding e1 e2 by (intro fl_mono) simp
qed

lemma energy_antimono_friction:
  assumes "energy_available_f64 np_cos height length' incline f1 = Some e1"
    and "energy_available_f64 np_cos height length' incline f2 = Some e2"
    and "np_radians_f64 incline = Some theta" and "np_cos theta = Some c"
    and "0 \<le> c * length'" and "f1 \<le> f2"
  shows "e2 \<le> e1"
proof -
  from assms(1,3,4) obtain g where g: "f64 9.81 = Some g"
    and e1: "e1 = fl (fl (g * height) - fl (fl (fl (f1 * g) * c) * length'))"
    by (auto elim!: energy_SomeD)
  from assms(2,3,4) g
  have e2: "e2 = fl (fl (g * height) - fl (fl (fl (f2 * g) * c) * length'))"
    by (auto elim!: energy_SomeD)
  have "f1 * g \<le> f2 * g"
    using assms(6) g_nonneg [OF g] by (rule mult_right_mono)
  then have a: "fl (f1 * g) \<le> fl (f2 * g)"
    by (rule fl_mono)
  from assms(5) consider "0 \<le> c" "0 \<le> length'" | "c \<le> 0" "length' \<le> 0"
    by (auto simp: zero_le_mult_iff)
  then have "fl (fl (fl (f1 * g) * c) * length') \<le> fl (fl (fl (f2 * g) * c) * length')"
  proof cases
    case 1
    from a \<open>0 \<le> c\<close> have "fl (f1 * g) * c \<le> fl (f2 * g) * c"
      by (rule mult_right_mono)
    then have "fl (fl (f1 * g) * c) \<le> fl (fl (f2 * g) * c)"
      by (rule fl_mono)
    then have "fl (fl (f1 * g) * c) * length' \<le> fl (fl (f2 * g) * c) * length'"
      using \<open>0 \<le> length'\<close> by (rule mult_right_mono)
    then show ?thesis
      by (rule fl_mono)
  next
    case 2
    from a \<open>c \<le> 0\<close> have "fl (f2 * g) * c \<le> fl (f1 * g) * c"
      by (rule mult_right_mono_neg)
    then have "fl (fl (f2 * g) * c) \<le> fl (fl (f1 * g) * c)"
      by (rule fl_mono)
    then have "fl (fl (f1 * g) * c) * length' \<le> fl (fl (f2 * g) * c) * length'"
      using \<open>length' \<le> 0\<close> by (rule mult_right_mono_neg)
    then show ?thesis
      by (rule fl_mono)
  qed
  then show ?thesis
    unfolding e1 e2 by (intro fl_mono) simp
qed

subsection \<open>Constants and concrete runs in double precision\<close>

text \<open>
  Each lemma below rounds one exact result: the binade and the significand are given,
  and the side conditions are checked by rational arithmetic.
\<close>

lemma f64_g: "f64 9.81 = Some (5522539043063071 / 2 ^ 49)"
  using f64_eqI [of 3 "9.81" 5522539043063071] by simp

lemma f64_deg2rad: "f64_div NPY_PI 180 = Some (5030569068109113 / 2 ^ 58)"
  unfolding f64_div_def NPY_PI_def
  using f64_eqI [of "- 6" "884279719003555 / 2 ^ 48 / 180" 5030569068109113] by simp

lemma f64_four_thirds: "f64 (4 / 3) = Some (6004799503160661 / 2 ^ 52)"
  using f64_eqI [of 0 "4 / 3" 6004799503160661] by simp

lemma cos_rounded_0: "cos_rounded 0 = Some 1"
  unfolding cos_rounded_def by (simp add: f64_1)

lemma cos_rounded_finite: "cos_rounded x = Some (fl (cos x))"
  unfolding cos_rounded_def by (rule f64_finite) (rule order_trans [OF abs_cos_le_one], simp)

lemma rad_0: "f64_mul 0 (5030569068109113 / 2 ^ 58) = Some 0"
  unfolding f64_mul_def by (simp add: f64_0)

lemma gh_h225_f075: "f64_mul (5522539043063071 / 2 ^ 49) 2.25 = Some (6212856423445955 / 2 ^ 48)"
  unfolding f64_mul_def using f64_eqI [of "4" "5522539043063071 / 2 ^ 49 * 2.25" "6212856423445955"] by simp

lemma fg_0_75: "f64_mul 0.75 (5522539043063071 / 2 ^ 49) = Some (4141904282297303 / 2 ^ 49)"
  unfolding f64_mul_def using f64_eqI_even [of "2" "0.75 * (5522539043063071 / 2 ^ 49)" "8283808564594606"] by simp

lemma fgc_h225_f075: "f64_mul (4141904282297303 / 2 ^ 49) 1 = Some (4141904282297303 / 2 ^ 49)"
  unfolding f64_mul_def using f64_eqI_even [of "2" "(4141904282297303 / 2 ^ 49) * 1" "8283808564594606"] by simp

lemma fgcl_h225_f075: "f64_mul (4141904282297303 / 2 ^ 49) 3 = Some (3106428211722977 / 2 ^ 47)"
  unfolding f64_mul_def using f64_eqI_even [of "4" "(4141904282297303 / 2 ^ 49) * 3" "6212856423445954"] by simp

lemma e_h225_f075: "f64_sub (6212856423445955 / 2 ^ 48) (3106428211722977 / 2 ^ 47) = Some (1 / 2 ^ 48)"
  unfolding f64_sub_def using f64_eqI_even [of "-48" "(6212856423445955 / 2 ^ 48) - (3106428211722977 / 2 ^ 47)" "4503599627370496"] by simp

lemma energy_h225_f075:
  "energy_available_f64 cos_rounded 2.25 3 0 0.75 = Some (1 / 2 ^ 48)"
  unfolding energy_available_f64_def np_radians_f64_def
  by (simp only: f64_g f64_deg2rad rad_0 gh_h225_f075 fg_0_75 cos_rounded_0 fgc_h225_f075 fgcl_h225_f075 e_h225_f075 bind.bind_lunit)

lemma vs_h225_f075: "f64 ((6004799503160661 / 2 ^ 52) * (1 / 2 ^ 48)) = Some (6004799503160661 / 2 ^ 100)"
  using f64_eqI [of "-48" "(6004799503160661 / 2 ^ 52) * (1 / 2 ^ 48)" "6004799503160661"] by simp

lemma v_h225_f075: "np_sqrt_f64 (6004799503160661 / 2 ^ 100) = Some (1300077228592327 / 2 ^ 74)"
  unfolding np_sqrt_f64_def using f64_sqrt_eqI [of "-24" "6004799503160661 / 2 ^ 100" "5200308914369308"] by (simp add: power2_eq_square)

lemma final_h225_f075:
  "final_disk_speed_f64 cos_rounded 2.25 3 0 mass 0.75 radius = Some (1300077228592327 / 2 ^ 74)"
proof -
  have "\<not> (1 / 2 ^ 48) \<le> (0::real)"
    by simp
  then show ?thesis
    unfolding final_disk_speed_f64_body energy_h225_f075
    by (simp only: bind.bind_lunit if_False f64_four_thirds vs_h225_f075 v_h225_f075)
qed

lemma rad_30: "f64_mul 30 (5030569068109113 / 2 ^ 58) = Some (4716158501352293 / 2 ^ 53)"
  unfolding f64_mul_def using f64_eqI [of "-1" "30 * (5030569068109113 / 2 ^ 58)" "4716158501352293"] by simp

lemma gh_h10: "f64_mul (5522539043063071 / 2 ^ 49) 10 = Some (6903173803828839 / 2 ^ 46)"
  unfolding f64_mul_def using f64_eqI [of "6" "5522539043063071 / 2 ^ 49 * 10" "6903173803828839"] by simp

lemma fg_0: "f64_mul 0 (5522539043063071 / 2 ^ 49) = Some 0"
  unfolding f64_mul_def by (simp add: f64_0)

lemma fgc_h10: "f64_mul 0 (fl (cos (4716158501352293 / 2 ^ 53))) = Some 0"
  unfolding f64_mul_def by (simp add: f64_0)

lemma fgcl_h10: "f64_mul 0 20 = Some 0"
  unfolding f64_mul_def by (simp add: f64_0)

lemma e_h10: "f64_sub (6903173803828839 / 2 ^ 46) 0 = Some (6903173803828839 / 2 ^ 46)"
  unfolding f64_sub_def using f64_eqI [of "6" "(6903173803828839 / 2 ^ 46) - 0" "6903173803828839"] by simp

lemma energy_h10:
  "energy_available_f64 cos_rounded 10 20 30 0 = Some (6903173803828839 / 2 ^ 46)"
  unfolding energy_available_f64_def np_radians_f64_def
  by (simp only: f64_g f64_deg2rad rad_30 gh_h10 fg_0 cos_rounded_finite fgc_h10 fgcl_h10 e_h10 bind.bind_lunit)

lemma vs_h10: "f64 ((6004799503160661 / 2 ^ 52) * (6903173803828839 / 2 ^ 46)) = Some (2301057934609613 / 2 ^ 44)"
  using f64_eqI_even [of "7" "(6004799503160661 / 2 ^ 52) * (6903173803828839 / 2 ^ 46)" "4602115869219226"] by simp

lemma v_h10: "np_sqrt_f64 (2301057934609613 / 2 ^ 44) = Some (6438336324506751 / 2 ^ 49)"
  unfolding np_sqrt_f64_def using f64_sqrt_eqI [of "3" "2301057934609613 / 2 ^ 44" "6438336324506751"] by (simp add: power2_eq_square)

lemma final_h10:
  "final_disk_speed_f64 cos_rounded 10 20 30 mass 0 radius = Some (6438336324506751 / 2 ^ 49)"
proof -
  have "\<not> (6903173803828839 / 2 ^ 46) \<le> (0::real)"
    by simp
  then show ?thesis
    unfolding final_disk_speed_f64_body energy_h10
    by (simp only: bind.bind_lunit if_False f64_four_thirds vs_h10 v_h10)
qed

lemma gh_h10_next: "f64_mul (5522539043063071 / 2 ^ 49) (10 + 1 / 2 ^ 49) = Some (862896725478605 / 2 ^ 43)"
  unfolding f64_mul_def using f64_eqI_even [of "6" "5522539043063071 / 2 ^ 49 * (10 + 1 / 2 ^ 49)" "6903173803828840"] by simp

lemma e_h10_next: "f64_sub (862896725478605 / 2 ^ 43) 0 = Some (862896725478605 / 2 ^ 43)"
  unfolding f64_sub_def using f64_eqI_even [of "6" "(862896725478605 / 2 ^ 43) - 0" "6903173803828840"] by simp

lemma energy_h10_next:
  "energy_available_f64 cos_rounded (10 + 1 / 2 ^ 49) 20 30 0 = Some (862896725478605 / 2 ^ 43)"
  unfolding energy_available_f64_def np_radians_f64_def
  by (simp only: f64_g f64_deg2rad rad_30 gh_h10_next fg_0 cos_rounded_finite fgc_h10 fgcl_h10 e_h10_next bind.bind_lunit)

lemma vs_h10_next: "f64 ((6004799503160661 / 2 ^ 52) * (862896725478605 / 2 ^ 43)) = Some (2301057934609613 / 2 ^ 44)"
  using f64_eqI_even [of "7" "(6004799503160661 / 2 ^ 52) * (862896725478605 / 2 ^ 43)" "4602115869219226"] by simp

lemma final_h10_next:
  "final_disk_speed_f64 cos_rounded (10 + 1 / 2 ^ 49) 20 30 mass 0 radius = Some (6438336324506751 / 2 ^ 49)"
proof -
  have "\<not> (862896725478605 / 2 ^ 43) \<le> (0::real)"
    by simp
  then show ?thesis
    unfolding final_disk_speed_f64_body energy_h10_next
    by (simp only: bind.bind_lunit if_False f64_four_thirds vs_h10_next v_h10)
qed

lemma gh_h5: "f64_mul (5522539043063071 / 2 ^ 49) 5 = Some (6903173803828839 / 2 ^ 47)"
  unfolding f64_mul_def using f64_eqI [of "5" "5522539043063071 / 2 ^ 49 * 5" "6903173803828839"] by simp

lemma e_h5: "f64_sub (6903173803828839 / 2 ^ 47) 0 = Some (6903173803828839 / 2 ^ 47)"
  unfolding f64_sub_def using f64_eqI [of "5" "(6903173803828839 / 2 ^ 47) - 0" "6903173803828839"] by simp

lemma energy_h5:
  "energy_available_f64 cos_rounded 5 20 30 0 = Some (6903173803828839 / 2 ^ 47)"
  unfolding energy_available_f64_def np_radians_f64_def
  by (simp only: f64_g f64_deg2rad rad_30 gh_h5 fg_0 cos_rounded_finite fgc_h10 fgcl_h10 e_h5 bind.bind_lunit)

lemma vs_h5: "f64 ((6004799503160661 / 2 ^ 52) * (6903173803828839 / 2 ^ 47)) = Some (2301057934609613 / 2 ^ 45)"
  using f64_eqI_even [of "6" "(6004799503160661 / 2 ^ 52) * (6903173803828839 / 2 ^ 47)" "4602115869219226"] by simp

lemma v_h5: "np_sqrt_f64 (2301057934609613 / 2 ^ 45) = Some (1138147818654599 / 2 ^ 47)"
  unfolding np_sqrt_f64_def using f64_sqrt_eqI [of "3" "2301057934609613 / 2 ^ 45" "4552591274618396"] by (simp add: power2_eq_square)

lemma final_h5:
  "final_disk_speed_f64 cos_rounded 5 20 30 mass 0 radius = Some (1138147818654599 / 2 ^ 47)"
proof -
  have "\<not> (6903173803828839 / 2 ^ 47) \<le> (0::real)"
    by simp
  then show ?thesis
    unfolding final_disk_speed_f64_body energy_h5
    by (simp only: bind.bind_lunit if_False f64_four_thirds vs_h5 v_h5)
qed

lemma fg_0_5: "f64_mul 0.5 (5522539043063071 / 2 ^ 49) = Some (5522539043063071 / 2 ^ 50)"
  unfolding f64_mul_def using f64_eqI [of "2" "0.5 * (5522539043063071 / 2 ^ 49)" "5522539043063071"] by simp

lemma fgc_h225_f05: "f64_mul (5522539043063071 / 2 ^ 50) 1 = Some (5522539043063071 / 2 ^ 50)"
  unfolding f64_mul_def using f64_eqI [of "2" "(5522539043063071 / 2 ^ 50) * 1" "5522539043063071"] by simp

lemma fgcl_h225_f05: "f64_mul (5522539043063071 / 2 ^ 50) 3 = Some (4141904282297303 / 2 ^ 48)"
  unfolding f64_mul_def using f64_eqI_even [of "3" "(5522539043063071 / 2 ^ 50) * 3" "8283808564594606"] by simp

lemma e_h225_f05: "f64_sub (6212856423445955 / 2 ^ 48) (4141904282297303 / 2 ^ 48) = Some (517738035287163 / 2 ^ 46)"
  unfolding f64_sub_def using f64_eqI_even [of "2" "(6212856423445955 / 2 ^ 48) - (4141904282297303 / 2 ^ 48)" "8283808564594608"] by simp

lemma energy_h225_f05:
  "energy_available_f64 cos_rounded 2.25 3 0 0.5 = Some (517738035287163 / 2 ^ 46)"
  unfolding energy_available_f64_def np_radians_f64_def
  by (simp only: f64_g f64_deg2rad rad_0 gh_h225_f075 fg_0_5 cos_rounded_0 fgc_h225_f05 fgcl_h225_f05 e_h225_f05 bind.bind_lunit)

lemma vs_h225_f05: "f64 ((6004799503160661 / 2 ^ 52) * (517738035287163 / 2 ^ 46)) = Some (172579345095721 / 2 ^ 44)"
  using f64_eqI_even [of "3" "(6004799503160661 / 2 ^ 52) * (517738035287163 / 2 ^ 46)" "5522539043063072"] by simp

lemma v_h225_f05: "np_sqrt_f64 (172579345095721 / 2 ^ 44) = Some (3526422037737249 / 2 ^ 50)"
  unfolding np_sqrt_f64_def using f64_sqrt_eqI [of "1" "172579345095721 / 2 ^ 44" "7052844075474498"] by (simp add: power2_eq_square)

lemma final_h225_f05:
  "final_disk_speed_f64 cos_rounded 2.25 3 0 mass 0.5 radius = Some (3526422037737249 / 2 ^ 50)"
proof -
  have "\<not> (517738035287163 / 2 ^ 46) \<le> (0::real)"
    by simp
  then show ?thesis
    unfolding final_disk_speed_f64_body energy_h225_f05
    by (simp only: bind.bind_lunit if_False f64_four_thirds vs_h225_f05 v_h225_f05)
qed

lemma fg_1: "f64_mul 1 (5522539043063071 / 2 ^ 49) = Some (5522539043063071 / 2 ^ 49)"
  unfolding f64_mul_def using f64_eqI [of "3" "1 * (5522539043063071 / 2 ^ 49)" "5522539043063071"] by simp

lemma fgc_h225_f1: "f64_mul (5522539043063071 / 2 ^ 49) 1 = Some (5522539043063071 / 2 ^ 49)"
  unfolding f64_mul_def using f64_eqI [of "3" "(5522539043063071 / 2 ^ 49) * 1" "5522539043063071"] by simp

lemma fgcl_h225_f1: "f64_mul (5522539043063071 / 2 ^ 49) 3 = Some (4141904282297303 / 2 ^ 47)"
  unfolding f64_mul_def using f64_eqI_even [of "4" "(5522539043063071 / 2 ^ 49) * 3" "8283808564594606"] by simp

lemma e_h225_f1: "f64_sub (6212856423445955 / 2 ^ 48) (4141904282297303 / 2 ^ 47) = Some (- (2070952141148651 / 2 ^ 48))"
  unfolding f64_sub_def using f64_eqI_neg_even [of "2" "(6212856423445955 / 2 ^ 48) - (4141904282297303 / 2 ^ 47)" "8283808564594604"] by simp

lemma energy_h225_f1:
  "energy_available_f64 cos_rounded 2.25 3 0 1 = Some (- (2070952141148651 / 2 ^ 48))"
  unfolding energy_available_f64_def np_radians_f64_def
  by (simp only: f64_g f64_deg2rad rad_0 gh_h225_f075 fg_1 cos_rounded_0 fgc_h225_f1 fgcl_h225_f1 e_h225_f1 bind.bind_lunit)

lemma final_h225_f1:
  "final_disk_speed_f64 cos_rounded 2.25 3 0 mass 1 radius = Some 0"
  unfolding final_disk_speed_f64_body energy_h225_f1 by simp

lemma fg_2: "f64_mul 2 (5522539043063071 / 2 ^ 49) = Some (5522539043063071 / 2 ^ 48)"
  unfolding f64_mul_def using f64_eqI [of "4" "2 * (5522539043063071 / 2 ^ 49)" "5522539043063071"] by simp

lemma fgc_h225_f2: "f64_mul (5522539043063071 / 2 ^ 48) 1 = Some (5522539043063071 / 2 ^ 48)"
  unfolding f64_mul_def using f64_eqI [of "4" "(5522539043063071 / 2 ^ 48) * 1" "5522539043063071"] by simp

lemma fgcl_h225_f2: "f64_mul (5522539043063071 / 2 ^ 48) 3 = Some (4141904282297303 / 2 ^ 46)"
  unfolding f64_mul_def using f64_eqI_even [of "5" "(5522539043063071 / 2 ^ 48) * 3" "8283808564594606"] by simp

lemma e_h225_f2: "f64_sub (6212856423445955 / 2 ^ 48) (4141904282297303 / 2 ^ 46) = Some (- (1294345088217907 / 2 ^ 45))"
  unfolding f64_sub_def using f64_eqI_neg_even [of "5" "(6212856423445955 / 2 ^ 48) - (4141904282297303 / 2 ^ 46)" "5177380352871628"] by simp

lemma energy_h225_f2:
  "energy_available_f64 cos_rounded 2.25 3 0 2 = Some (- (1294345088217907 / 2 ^ 45))"
  unfolding energy_available_f64_def np_radians_f64_def
  by (simp only: f64_g f64_deg2rad rad_0 gh_h225_f075 fg_2 cos_rounded_0 fgc_h225_f2 fgcl_h225_f2 e_h225_f2 bind.bind_lunit)

lemma final_h225_f2:
  "final_disk_speed_f64 cos_rounded 2.25 3 0 mass 2 radius = Some 0"
  unfolding final_disk_speed_f64_body energy_h225_f2 by simp

lemma gh_h0: "f64_mul (5522539043063071 / 2 ^ 49) 0 = Some 0"
  unfolding f64_mul_def by (simp add: f64_0)

lemma fgc_h0: "f64_mul 0 1 = Some 0"
  unfolding f64_mul_def by (simp add: f64_0)

lemma fgcl_h0: "f64_mul 0 3 = Some 0"
  unfolding f64_mul_def by (simp add: f64_0)

lemma e_h0: "f64_sub 0 0 = Some 0"
  unfolding f64_sub_def by (simp add: f64_0)

lemma energy_h0:
  "energy_available_f64 cos_rounded 0 3 0 0 = Some 0"
  unfolding energy_available_f64_def np_radians_f64_def
  by (simp only: f64_g f64_deg2rad rad_0 gh_h0 fg_0 cos_rounded_0 fgc_h0 fgcl_h0 e_h0 bind.bind_lunit)

lemma final_h0:
  "final_disk_speed_f64 cos_rounded 0 3 0 mass 0 radius = Some 0"
  unfolding final_disk_speed_f64_body energy_h0 by simp

lemma np_radians_f64_0: "np_radians_f64 0 = Some 0"
  unfolding np_radians_f64_def by (simp only: f64_deg2rad rad_0 bind.bind_lunit)

section \<open>The formula and the zero clamp\<close>



text \<open>
  Claim C2, as amended. For every six inputs, if the specific available energy as the
  code computes it, in double precision, is \<open>\<le> 0\<close>, then \<open>final_disk_speed\<close> returns
  exactly zero: a value, neither an error nor a negative or undefined result.
\<close>

theorem final_disk_speed_f64_zero_clamp:
  assumes "energy_available_f64 np_cos height length' incline friction = Some e"
    and "e \<le> 0"
  shows "final_disk_speed_f64 np_cos height length' incline mass friction radius = Some 0"
  unfolding final_disk_speed_f64_body using assms by simp

theorem final_disk_speed_f64_zero_clamp_witness:
  "energy_available_f64 cos_rounded 2.25 3 0 1 = Some (- (2070952141148651 / 2 ^ 48)) \<and>
   - (2070952141148651 / 2 ^ 48) \<le> (0::real) \<and>
   final_disk_speed_f64 cos_rounded 2.25 3 0 1 1 1 = Some 0 \<and>
   energy_available_f64 cos_rounded 0 3 0 0 = Some 0 \<and> (0::real) \<le> 0 \<and>
   final_disk_speed_f64 cos_rounded 0 3 0 1 0 1 = Some 0"
proof -
  have neg: "- (2070952141148651 / 2 ^ 48) \<le> (0::real)"
    by simp
  have zero: "(0::real) \<le> 0"
    by simp
  from energy_h225_f1 neg energy_h0 zero
    final_disk_speed_f64_zero_clamp [OF energy_h225_f1 neg, of 1 1]
    final_disk_speed_f64_zero_clamp [OF energy_h0 zero, of 1 1]
  show ?thesis
    by blast
qed

text \<open>
  Claim C2 as stated, with \<open>friction * cos(incline in radians) * length \<ge> height\<close> as an
  equivalent condition, fails: at height 2.25, length 3, incline 0 and friction 0.75
  that condition holds with equality, the energy computed in double precision is
  \<open>2\<^sup>-\<^sup>4\<^sup>8\<close>, and the result is about \<open>6.88e-08\<close>, not zero.
\<close>

theorem final_disk_speed_zero_clamp_counterexample:
  "(0.75::real) * cos (0 * pi / 180) * 3 \<ge> 2.25 \<and>
   energy_available_f64 cos_rounded 2.25 3 0 0.75 = Some (1 / 2 ^ 48) \<and>
   final_disk_speed_f64 cos_rounded 2.25 3 0 1 0.75 1 = Some (1300077228592327 / 2 ^ 74) \<and>
   (1300077228592327 / 2 ^ 74 :: real) \<noteq> 0"
proof -
  have "(0.75::real) * cos (0 * pi / 180) * 3 \<ge> 2.25"
    by simp
  moreover have "(1300077228592327 / 2 ^ 74 :: real) \<noteq> 0"
    by simp
  ultimately show ?thesis
    using energy_h225_f075 final_h225_f075 [of 1 1] by blast
qed

section \<open>Parameters that do not matter\<close>

text \<open>
  Claim C5. For fixed height, length, incline and friction, two runs of
  \<open>final_disk_speed\<close> that differ only in their mass and radius arguments return the
  same result. (The equality holds for all masses and radii, the positive ones among them.)
\<close>

theorem final_disk_speed_mass_radius_irrelevant:
  "final_disk_speed height length' incline mass1 friction radius1 =
   final_disk_speed height length' incline mass2 friction radius2"
  unfolding final_disk_speed_def by (rule refl)

text \<open>
  Claim C10. The result depends on the incline only through its cosine: the incline \<open>i\<close>
  and the incline \<open>- i\<close> give the same result, for every six real inputs, none of which
  is rejected for its range.
\<close>

theorem final_disk_speed_incline_even:
  "final_disk_speed height length' (- incline) mass friction radius =
   final_disk_speed height length' incline mass friction radius"
  unfolding final_disk_speed_def radians_def by (simp only: Let_def mult_minus_left minus_divide_left [symmetric] cos_minus)

section \<open>The result is defined and non-negative\<close>

text \<open>
  Claim C6. For every six real inputs \<open>final_disk_speed\<close> returns a defined,
  non-negative real number: the square root is never taken of a negative number (in
  the model that would be the result \<open>None\<close>), and there is no other failing operation.
\<close>

theorem final_disk_speed_defined_nonneg:
  "\<exists>v. final_disk_speed height length' incline mass friction radius = Some v \<and> 0 \<le> v"
proof (cases "9.81 * height - friction * 9.81 * cos (incline * pi / 180) * length' \<le> 0")
  case True
  then have "final_disk_speed height length' incline mass friction radius = Some 0"
    by (rule final_disk_speed_clamped)
  then show ?thesis
    by simp
next
  case False
  then have pos: "0 < 9.81 * height - friction * 9.81 * cos (incline * pi / 180) * length'"
    by (simp only: not_le)
  have "0 \<le> sqrt (4 / 3 * e)" if "0 < e" for e :: real
    using that by simp
  with pos final_disk_speed_rolling [OF pos] show ?thesis
    by blast
qed

section \<open>Monotonicity\<close>

text \<open>
  Claim C8, as amended. With length, incline, mass, friction and radius fixed, the
  result as computed in double precision is non-decreasing in the height: for two
  heights \<open>h1 \<le> h2\<close>, with positive available energy or not, the result at \<open>h1\<close> is less
  than or equal to the result at \<open>h2\<close>, whenever both runs are free of overflow.
\<close>

theorem final_disk_speed_f64_height_mono:
  assumes "h1 \<le> h2"
    and "final_disk_speed_f64 np_cos h1 length' incline mass friction radius = Some v1"
    and "final_disk_speed_f64 np_cos h2 length' incline mass friction radius = Some v2"
  shows "v1 \<le> v2"
proof -
  from assms(2) obtain e1
    where e1: "energy_available_f64 np_cos h1 length' incline friction = Some e1"
    by (rule final_SomeD)
  from assms(3) obtain e2
    where e2: "energy_available_f64 np_cos h2 length' incline friction = Some e2"
    by (rule final_SomeD)
  from e1 e2 assms(1) have "e1 \<le> e2"
    by (rule energy_mono_height)
  with assms(2,3) e1 e2 show ?thesis
    by (rule final_mono_energy)
qed

theorem final_disk_speed_f64_height_mono_witness:
  "(5::real) \<le> 10 \<and>
   final_disk_speed_f64 cos_rounded 5 20 30 5 0 0.5 = Some (1138147818654599 / 2 ^ 47) \<and>
   final_disk_speed_f64 cos_rounded 10 20 30 5 0 0.5 = Some (6438336324506751 / 2 ^ 49) \<and>
   (1138147818654599 / 2 ^ 47 :: real) \<le> 6438336324506751 / 2 ^ 49"
proof -
  have le: "(5::real) \<le> 10"
    by simp
  from le final_h5 [of 5 "0.5"] final_h10 [of 5 "0.5"]
    final_disk_speed_f64_height_mono [OF le final_h5 [of 5 "0.5"] final_h10 [of 5 "0.5"]]
  show ?thesis
    by blast
qed

text \<open>
  Claim C8 as stated, with a strict increase, fails: the heights 10 and
  \<open>10 + 2\<^sup>-\<^sup>4\<^sup>9\<close>, the next double, both have positive computed energy, at length 20,
  incline 30 and friction 0, and the two results are the same double, about 11.4368.
\<close>

theorem final_disk_speed_height_strict_counterexample:
  "(10::real) < 10 + 1 / 2 ^ 49 \<and>
   energy_available_f64 cos_rounded 10 20 30 0 = Some (6903173803828839 / 2 ^ 46) \<and>
   (0::real) < 6903173803828839 / 2 ^ 46 \<and>
   energy_available_f64 cos_rounded (10 + 1 / 2 ^ 49) 20 30 0 = Some (862896725478605 / 2 ^ 43) \<and>
   (0::real) < 862896725478605 / 2 ^ 43 \<and>
   final_disk_speed_f64 cos_rounded 10 20 30 5 0 0.5 = Some (6438336324506751 / 2 ^ 49) \<and>
   final_disk_speed_f64 cos_rounded (10 + 1 / 2 ^ 49) 20 30 5 0 0.5 =
     Some (6438336324506751 / 2 ^ 49) \<and>
   \<not> (6438336324506751 / 2 ^ 49 :: real) < 6438336324506751 / 2 ^ 49"
proof -
  have "(10::real) < 10 + 1 / 2 ^ 49"
    by simp
  moreover have "(0::real) < 6903173803828839 / 2 ^ 46"
    by simp
  moreover have "(0::real) < 862896725478605 / 2 ^ 43"
    by simp
  ultimately show ?thesis
    using energy_h10 energy_h10_next final_h10 [of 5 "0.5"] final_h10_next [of 5 "0.5"]
    by blast
qed

text \<open>
  Claim C7, as amended. With height, length, incline, mass and radius fixed, and the
  cosine that the code computes for the incline not opposite in sign to the length
  (their product is \<open>\<ge> 0\<close>), the result as computed in double precision is
  non-increasing in the friction: for \<open>f1 \<le> f2\<close> the result at \<open>f2\<close> is at most the result
  at \<open>f1\<close>, and a result of zero at \<open>f1\<close> stays zero at \<open>f2\<close>, whenever both runs are free
  of overflow.
\<close>

theorem final_disk_speed_f64_friction_antimono:
  assumes "np_radians_f64 incline = Some theta" and "np_cos theta = Some c"
    and "0 \<le> c * length'" and "f1 \<le> f2"
    and "final_disk_speed_f64 np_cos height length' incline mass f1 radius = Some v1"
    and "final_disk_speed_f64 np_cos height length' incline mass f2 radius = Some v2"
  shows "v2 \<le> v1 \<and> (v1 = 0 \<longrightarrow> v2 = 0)"
proof -
  from assms(5) obtain e1
    where e1: "energy_available_f64 np_cos height length' incline f1 = Some e1"
    by (rule final_SomeD)
  from assms(6) obtain e2
    where e2: "energy_available_f64 np_cos height length' incline f2 = Some e2"
    by (rule final_SomeD)
  from e1 e2 assms(1-4) have "e2 \<le> e1"
    by (rule energy_antimono_friction)
  with assms(6,5) e2 e1 have le: "v2 \<le> v1"
    by (rule final_mono_energy)
  moreover from assms(6) have "0 \<le> v2"
    by (rule final_nonneg)
  ultimately show ?thesis
    by simp
qed

theorem final_disk_speed_f64_friction_antimono_witness:
  "np_radians_f64 0 = Some 0 \<and> cos_rounded 0 = Some 1 \<and> (0::real) \<le> 1 * 3 \<and>
   (0.5::real) \<le> 1 \<and> (1::real) \<le> 2 \<and>
   final_disk_speed_f64 cos_rounded 2.25 3 0 1 0.5 1 = Some (3526422037737249 / 2 ^ 50) \<and>
   final_disk_speed_f64 cos_rounded 2.25 3 0 1 1 1 = Some 0 \<and>
   final_disk_speed_f64 cos_rounded 2.25 3 0 1 2 1 = Some 0 \<and>
   (0::real) \<le> 3526422037737249 / 2 ^ 50 \<and>
   (0::real) \<le> 0 \<and> (0::real) = 0"
proof -
  have sgn: "(0::real) \<le> 1 * 3"
    by simp
  have f: "(0.5::real) \<le> 1"
    by simp
  have f': "(1::real) \<le> 2"
    by simp
  note r05 = final_h225_f05 [of 1 1]
  note r1 = final_h225_f1 [of 1 1]
  note r2 = final_h225_f2 [of 1 1]
  from np_radians_f64_0 cos_rounded_0 sgn f f' r05 r1 r2
    final_disk_speed_f64_friction_antimono [OF np_radians_f64_0 cos_rounded_0 sgn f r05 r1]
    final_disk_speed_f64_friction_antimono [OF np_radians_f64_0 cos_rounded_0 sgn f' r1 r2]
  show ?thesis
    by blast
qed

text \<open>
  Claim C7 as stated, for every incline and length, fails: at an incline of 180 degrees
  the cosine is \<open>-1\<close>, friction adds energy, and the result at friction 1 is greater than
  the result at friction 0.
\<close>

theorem final_disk_speed_friction_counterexample:
  "final_disk_speed 1 1 180 1 0 1 = Some (sqrt 13.08) \<and>
   final_disk_speed 1 1 180 1 1 1 = Some (sqrt 26.16) \<and>
   (0::real) \<le> 1 \<and> \<not> sqrt 26.16 \<le> sqrt 13.08"
proof -
  have "final_disk_speed 1 1 180 1 0 1 = Some (sqrt 13.08)"
    using final_disk_speed_rolling [of 1 0 180 1 1 1] by simp
  moreover have "final_disk_speed 1 1 180 1 1 1 = Some (sqrt 26.16)"
    using final_disk_speed_rolling [of 1 1 180 1 1 1] by simp
  moreover have "\<not> sqrt 26.16 \<le> sqrt 13.08"
    by simp
  ultimately show ?thesis
    by simp
qed

section \<open>The frictionless case\<close>

text \<open>
  Claim C3, as amended. With friction 0 and a height \<open>\<ge> 0\<close>, \<open>final_disk_speed\<close> returns
  \<open>sqrt((4/3) * g * height)\<close> with \<open>g = 9.81\<close>, and with friction 0 and a negative height
  it returns 0; with friction 0 the result is the same for every two lengths and
  inclines, at every height; and for height 10 and friction 0 the result is within
  \<open>0.0001\<close> of 11.4368.
\<close>

theorem final_disk_speed_frictionless:
  "(0 \<le> height \<longrightarrow>
      final_disk_speed height length' incline mass 0 radius = Some (sqrt ((4 / 3) * 9.81 * height))) \<and>
   (height < 0 \<longrightarrow> final_disk_speed height length' incline mass 0 radius = Some 0) \<and>
   final_disk_speed height length1 incline1 mass 0 radius =
     final_disk_speed height length2 incline2 mass 0 radius \<and>
   (\<exists>v. final_disk_speed 10 length' incline mass 0 radius = Some v \<and> \<bar>v - 11.4368\<bar> < 0.0001)"
proof -
  have zero: "final_disk_speed h l i m 0 r = Some 0" if "h \<le> 0" for h l i m r
  proof (rule final_disk_speed_clamped)
    show "9.81 * h - 0 * 9.81 * cos (i * pi / 180) * l \<le> 0"
      using that by (simp add: mult_le_0_iff)
  qed
  have pos: "final_disk_speed h l i m 0 r = Some (sqrt (4 / 3 * 9.81 * h))" if "0 < h" for h l i m r
  proof -
    have "0 < 9.81 * h - 0 * 9.81 * cos (i * pi / 180) * l"
      using that by simp
    then have "final_disk_speed h l i m 0 r =
        Some (sqrt (4 / 3 * (9.81 * h - 0 * 9.81 * cos (i * pi / 180) * l)))"
      by (rule final_disk_speed_rolling)
    then show ?thesis
      by simp
  qed
  have formula: "final_disk_speed height length' incline mass 0 radius =
      Some (sqrt ((4 / 3) * 9.81 * height))" if "0 \<le> height"
  proof (cases "height = 0")
    case True
    then show ?thesis
      using zero [of height length' incline mass radius] by simp
  next
    case False
    with that have "0 < height"
      by simp
    then show ?thesis
      by (rule pos)
  qed
  have negative: "final_disk_speed height length' incline mass 0 radius = Some 0"
    if "height < 0"
    using that by (intro zero) simp
  have indep: "final_disk_speed height length1 incline1 mass 0 radius =
      final_disk_speed height length2 incline2 mass 0 radius"
  proof (cases "height \<le> 0")
    case True
    then show ?thesis
      by (simp only: zero)
  next
    case False
    then have "0 < height"
      by simp
    then show ?thesis
      by (simp only: pos)
  qed
  have ten: "final_disk_speed 10 length' incline mass 0 radius = Some (sqrt 130.8)"
    using pos [of 10 length' incline mass radius] by simp
  have lo: "11.4367 < sqrt 130.8"
    by (rule real_less_rsqrt) (simp add: power2_eq_square)
  have hi: "sqrt 130.8 < 11.4369"
    by (rule real_less_lsqrt) (simp_all add: power2_eq_square)
  from lo hi have "\<bar>sqrt 130.8 - 11.4368\<bar> < 0.0001"
    unfolding abs_less_iff by simp
  with ten
  have "\<exists>v. final_disk_speed 10 length' incline mass 0 radius = Some v \<and>
      \<bar>v - 11.4368\<bar> < 0.0001"
    by blast
  with formula negative indep show ?thesis
    by blast
qed

theorem final_disk_speed_frictionless_witness:
  "(0::real) \<le> 10 \<and>
   final_disk_speed 10 20 30 5 0 0.5 = Some (sqrt ((4 / 3) * 9.81 * 10)) \<and>
   final_disk_speed 10 20 30 5 0 0.5 = final_disk_speed 10 7 80 5 0 0.5 \<and>
   (- 2::real) < 0 \<and> final_disk_speed (- 2) 20 30 5 0 0.5 = Some 0"
proof -
  have h: "(0::real) \<le> 10"
    by simp
  have h': "(- 2::real) < 0"
    by simp
  from h h' final_disk_speed_frictionless [of 10 20 30 5 "0.5" 20 30 7 80]
    final_disk_speed_frictionless [of "- 2" 20 30 5 "0.5"]
  show ?thesis
    by blast
qed

text \<open>
  Claim C3 as stated fails twice. For every input with friction 0: at the height \<open>-1\<close>
  the function returns 0, whereas the square root of \<open>(4/3) * g * height\<close> is undefined as
  numpy computes it, and is not 0 as a real number either. And the figure: at height 10
  the result \<open>sqrt 130.8\<close> is above 11.4367, more than \<open>0.005\<close> away from 11.4316.
\<close>

theorem final_disk_speed_frictionless_counterexample:
  "final_disk_speed (- 1) 20 30 5 0 0.5 = Some 0 \<and>
   np_sqrt ((4 / 3) * 9.81 * (- 1)) = None \<and>
   sqrt ((4 / 3) * 9.81 * (- 1)) \<noteq> 0 \<and>
   final_disk_speed 10 20 30 5 0 0.5 = Some (sqrt 130.8) \<and>
   \<not> \<bar>sqrt 130.8 - 11.4316\<bar> \<le> 0.005"
proof -
  have "(9.81::real) * (- 1) - 0 * 9.81 * cos (30 * pi / 180) * 20 \<le> 0"
    by simp
  then have "final_disk_speed (- 1) 20 30 5 0 0.5 = Some 0"
    by (rule final_disk_speed_clamped)
  moreover have "np_sqrt ((4 / 3) * 9.81 * (- 1)) = None"
    unfolding np_sqrt_def by simp
  moreover have "sqrt ((4 / 3) * 9.81 * (- 1)) \<noteq> 0"
    by simp
  moreover have "final_disk_speed 10 20 30 5 0 0.5 = Some (sqrt 130.8)"
    using final_disk_speed_rolling [of 10 0 30 20 5 "0.5"] by simp
  moreover have "\<not> \<bar>sqrt 130.8 - 11.4316\<bar> \<le> 0.005"
  proof -
    have "11.4367 < sqrt 130.8"
      by (rule real_less_rsqrt) (simp add: power2_eq_square)
    then show ?thesis
      by simp
  qed
  ultimately show ?thesis
    by blast
qed

section \<open>The scenarios\<close>

text \<open>
  Claim C4, as amended. For height 10, length 20, incline 30, mass 5, friction 0 and
  radius 0.5 the function returns \<open>sqrt 130.8\<close>, a value within 0.01 of 11.44.
\<close>

theorem final_disk_speed_scenario_A:
  "final_disk_speed 10 20 30 5 0 0.5 = Some (sqrt 130.8) \<and> \<bar>sqrt 130.8 - 11.44\<bar> \<le> 0.01"
proof -
  have "(0::real) < 9.81 * 10 - 0 * 9.81 * cos (30 * pi / 180) * 20"
    by simp
  then have "final_disk_speed 10 20 30 5 0 0.5 =
      Some (sqrt (4 / 3 * (9.81 * 10 - 0 * 9.81 * cos (30 * pi / 180) * 20)))"
    by (rule final_disk_speed_rolling)
  then have r: "final_disk_speed 10 20 30 5 0 0.5 = Some (sqrt 130.8)"
    by simp
  have "11.43 < sqrt 130.8"
    by (rule real_less_rsqrt) (simp add: power2_eq_square)
  moreover have "sqrt 130.8 < 11.45"
    by (rule real_less_lsqrt) (simp_all add: power2_eq_square)
  ultimately have "\<bar>sqrt 130.8 - 11.44\<bar> \<le> 0.01"
    unfolding abs_le_iff by simp
  with r show ?thesis
    by (rule conjI)
qed

text \<open>
  Claim C4 as stated fails: the value returned for that input, \<open>sqrt 130.8\<close>, is below
  11.47 and so not within 0.01 of 11.48.
\<close>

theorem final_disk_speed_scenario_A_counterexample:
  "final_disk_speed 10 20 30 5 0 0.5 = Some (sqrt 130.8) \<and> \<not> \<bar>sqrt 130.8 - 11.48\<bar> \<le> 0.01"
proof -
  have "(0::real) < 9.81 * 10 - 0 * 9.81 * cos (30 * pi / 180) * 20"
    by simp
  then have "final_disk_speed 10 20 30 5 0 0.5 =
      Some (sqrt (4 / 3 * (9.81 * 10 - 0 * 9.81 * cos (30 * pi / 180) * 20)))"
    by (rule final_disk_speed_rolling)
  then have r: "final_disk_speed 10 20 30 5 0 0.5 = Some (sqrt 130.8)"
    by simp
  have "sqrt 130.8 < 11.45"
    by (rule real_less_lsqrt) (simp_all add: power2_eq_square)
  then have "\<not> \<bar>sqrt 130.8 - 11.48\<bar> \<le> 0.01"
    by simp
  with r show ?thesis
    by (rule conjI)
qed

text \<open>
  Claim C9. For height 8, length 12, incline 45, mass 3, friction 0.3 and radius 0.4 the
  specific available energy is \<open>9.81*8 - 0.3*9.81*cos(45 degrees)*12\<close>, within 0.01 of
  53.50, and the function returns the square root of 4/3 of it, within 0.01 of 8.44.
\<close>

theorem final_disk_speed_scenario_B:
  "final_disk_speed 8 12 45 3 0.3 0.4 =
     Some (sqrt ((4 / 3) * (9.81 * 8 - 0.3 * 9.81 * cos (45 * pi / 180) * 12))) \<and>
   \<bar>(9.81 * 8 - 0.3 * 9.81 * cos (45 * pi / 180) * 12) - 53.50\<bar> < 0.01 \<and>
   \<bar>sqrt ((4 / 3) * (9.81 * 8 - 0.3 * 9.81 * cos (45 * pi / 180) * 12)) - 8.44\<bar> < 0.01"
proof -
  define e :: real where "e = 9.81 * 8 - 0.3 * 9.81 * cos (45 * pi / 180) * 12"
  have e_eq: "e = 78.48 - 17.658 * sqrt 2"
    unfolding e_def by (simp add: deg_45 cos_45)
  have e_lo: "53.506 < e"
    using sqrt2_upper unfolding e_eq by simp
  have e_hi: "e < 53.509"
    using sqrt2_lower unfolding e_eq by simp
  from e_lo have "0 < e"
    by simp
  then have r: "final_disk_speed 8 12 45 3 0.3 0.4 = Some (sqrt (4 / 3 * e))"
    unfolding e_def by (rule final_disk_speed_rolling)
  have "(8.44)\<^sup>2 < 4 / 3 * e"
    using e_lo by (simp add: power2_eq_square)
  then have v_lo: "8.44 < sqrt (4 / 3 * e)"
    by (rule real_less_rsqrt)
  have "4 / 3 * e < (8.45)\<^sup>2"
    using e_hi by (simp add: power2_eq_square)
  then have v_hi: "sqrt (4 / 3 * e) < 8.45"
    by (rule real_less_lsqrt [rotated]) simp
  from e_lo e_hi have "\<bar>e - 53.50\<bar> < 0.01"
    by simp
  moreover from v_lo v_hi have "\<bar>sqrt (4 / 3 * e) - 8.44\<bar> < 0.01"
    by simp
  ultimately show ?thesis
    using r unfolding e_def by blast
qed

end
